theory Spec2Isabelle
  imports
    Complex_Main
    "HOL-Library.Char_ord"
    "HOL-Library.List_Lexorder"
    "HOL-Library.Product_Lexorder"
    "HOL-Library.Sublist"
begin

section \<open>Break time discrepancy analysis (analysis.py)\<close>

text \<open>
  The development embeds the reconciliation core of \<^verbatim>\<open>analysis.py\<close>: the name
  tokenizer and scorer, \<^verbatim>\<open>match_employees\<close>, \<^verbatim>\<open>calculate_discrepancies\<close>,
  \<^verbatim>\<open>build_script\<close> and \<^verbatim>\<open>run_analysis\<close>. The two spreadsheet parsers are not
  embedded: the frames they return are the inputs of the model.

  Conventions of the embedding.
  \<^item> A Python \<^verbatim>\<open>str\<close> is a \<open>string\<close>; a character is one byte of its UTF-8 encoding.
    The tokenizer treats every character that is neither an ASCII letter nor white
    space as a separator, so the bytes of a non-ASCII character separate tokens exactly
    as the character itself does.
  \<^item> A Python \<^verbatim>\<open>float\<close> is an exact rational number, plus the value NaN where the
    code can meet it. Rounding is round-half-to-even on the exact value. Infinities and
    the representation error of binary floating point are outside the model.
  \<^item> An exception is a value \<open>Inl e\<close> of a sum type.
\<close>

subsection \<open>Python values\<close>

datatype error = TypeError | KeyError

text \<open>
  A cell of a numeric column, as \<^verbatim>\<open>row.get\<close> returns it: \<^verbatim>\<open>None\<close> (an object
  column), NaN (a float column) or a number.
\<close>

datatype num = PyNone | NaN | Num rat

text \<open>\<^verbatim>\<open>pd.isna\<close> on a scalar; \<^verbatim>\<open>pd.notna\<close> is its negation.\<close>

fun isna :: "num \<Rightarrow> bool" where
  "isna PyNone = True"
| "isna NaN = True"
| "isna (Num x) = False"

text \<open>
  \<^verbatim>\<open>round(x, n)\<close> on a float: the nearest multiple of \<open>10\<^sup>-\<^sup>n\<close>, a tie going to the
  even one.
\<close>

definition round_half_even :: "rat \<Rightarrow> int" where
  "round_half_even x =
     (let f = \<lfloor>x\<rfloor>; d = x - of_int f
      in if d < 1 / 2 then f
         else if 1 / 2 < d then f + 1
         else if even f then f else f + 1)"

definition py_round :: "nat \<Rightarrow> rat \<Rightarrow> rat" where
  "py_round n x = of_int (round_half_even (x * 10 ^ n)) / 10 ^ n"

subsection \<open>Fuzzy name matching\<close>

text \<open>The character classes \<^verbatim>\<open>[a-z]\<close>, \<^verbatim>\<open>[A-Z]\<close> and \<^verbatim>\<open>\s\<close>.\<close>

definition is_lower :: "char \<Rightarrow> bool" where
  "is_lower c = (CHR ''a'' \<le> c \<and> c \<le> CHR ''z'')"

definition is_upper :: "char \<Rightarrow> bool" where
  "is_upper c = (CHR ''A'' \<le> c \<and> c \<le> CHR ''Z'')"

definition is_space :: "char \<Rightarrow> bool" where
  "is_space c = (c \<in> set [CHR 0x09, CHR 0x0A, CHR 0x0B, CHR 0x0C, CHR 0x0D,
                           CHR 0x1C, CHR 0x1D, CHR 0x1E, CHR 0x1F, CHR '' ''])"

text \<open>\<^verbatim>\<open>str.strip()\<close>: white space removed at both ends.\<close>

definition strip :: "string \<Rightarrow> string" where
  "strip s = rev (dropWhile is_space (rev (dropWhile is_space s)))"

text \<open>
  \<^verbatim>\<open>re.sub(r"([a-z])([A-Z])", r"\1 \2", name)\<close>: scanning from the left, a lower-case
  letter followed by an upper-case letter is replaced by the two letters with a blank
  between them, and the scan goes on behind the pair.
\<close>

fun camel_sub :: "string \<Rightarrow> string" where
  "camel_sub (a # b # cs) =
     (if is_lower a \<and> is_upper b then a # CHR '' '' # b # camel_sub cs
      else a # camel_sub (b # cs))"
| "camel_sub cs = cs"

definition split_camelcase :: "string \<Rightarrow> string" where
  "split_camelcase name = strip (camel_sub name)"

text \<open>\<^verbatim>\<open>re.sub(r"[^a-zA-Z\s]", " ", name)\<close> and \<^verbatim>\<open>str.lower()\<close>.\<close>

definition non_letter_sub :: "string \<Rightarrow> string" where
  "non_letter_sub name =
     map (\<lambda>c. if is_lower c \<or> is_upper c \<or> is_space c then c else CHR '' '') name"

definition lower_char :: "char \<Rightarrow> char" where
  "lower_char c = (if is_upper c then char_of (of_char c + (32 :: nat)) else c)"

definition lower :: "string \<Rightarrow> string" where
  "lower s = map lower_char s"

text \<open>
  \<^verbatim>\<open>str.split()\<close> without argument: the maximal runs of characters that are not white
  space. \<open>w\<close> is the word read so far.
\<close>

fun split_acc :: "string \<Rightarrow> string \<Rightarrow> string list" where
  "split_acc w [] = (if w = [] then [] else [w])"
| "split_acc w (c # cs) =
     (if is_space c then (if w = [] then split_acc [] cs else w # split_acc [] cs)
      else split_acc (w @ [c]) cs)"

definition split :: "string \<Rightarrow> string list" where
  "split s = split_acc [] s"

text \<open>\<^verbatim>\<open>str(name)\<close> for a name that is a string or \<^verbatim>\<open>None\<close>.\<close>

fun str :: "string option \<Rightarrow> string" where
  "str None = ''None''"
| "str (Some s) = s"

definition name_tokens :: "string option \<Rightarrow> string set" where
  "name_tokens name =
     (let name1 = split_camelcase (str name);
          name2 = lower (non_letter_sub name1)
      in set (filter (\<lambda>w. 1 < length w) (split name2)))"

text \<open>\<^verbatim>\<open>a in b\<close> on strings: \<open>a\<close> occurs in \<open>b\<close> as a contiguous piece.\<close>

fun py_in :: "string \<Rightarrow> string \<Rightarrow> bool" where
  "py_in a [] = (a = [])"
| "py_in a (b # bs) = (prefix a (b # bs) \<or> py_in a bs)"

definition token_matches :: "string set \<Rightarrow> string set \<Rightarrow> nat" where
  "token_matches ta tb = card (Set.filter (\<lambda>a. \<exists>b\<in>tb. py_in a b \<or> py_in b a) ta)"

definition overlap_score :: "string option \<Rightarrow> string option \<Rightarrow> rat" where
  "overlap_score name_a name_b =
     (let ta = name_tokens name_a; tb = name_tokens name_b
      in if ta = {} \<or> tb = {} then 0
         else of_nat (token_matches ta tb) / of_nat (max (card ta) (card tb)))"

subsection \<open>Frames\<close>

text \<open>
  A data frame is the list of its rows, in index order; after \<^verbatim>\<open>reset_index\<close> the
  index label of a row is its position. The columns of the ADP frame (source A) and of
  the Amazon frame (source B) are grouped in one record each, so that the dictionary
  \<^verbatim>\<open>{**adp_row.to_dict(), **amz_row.to_dict(), ...}\<close> is a record with both groups.
  A time stamp is a number; an absent one is \<open>None\<close>.
\<close>

type_synonym timestamp = nat

record adp_cols =
  adp_name :: "string option"
  adp_break_start :: "timestamp option"
  adp_break_end :: "timestamp option"
  adp_break_minutes :: num

record amz_cols =
  amz_name :: "string option"
  transporter_id :: "string option"
  amz_break_start :: "timestamp option"
  amz_break_end :: "timestamp option"
  amz_break_minutes :: num

text \<open>
  A row of the merged frame. The columns that later steps assign are optional: \<open>None\<close>
  says that the frame has no such column (yet), which is what \<^verbatim>\<open>row.get\<close> reports
  as \<^verbatim>\<open>None\<close> and \<^verbatim>\<open>row[...]\<close> as a \<^verbatim>\<open>KeyError\<close>. \<open>sort_rank\<close> is the column
  \<^verbatim>\<open>_sort\<close>.
\<close>

record row =
  adp :: adp_cols
  amz :: amz_cols
  match_score :: rat
  diff_minutes :: "num option"
  severity :: "string option"
  direction :: "string option"
  needs_action :: "bool option"
  sort_rank :: "nat option"
  conversation_script :: "string option"

type_synonym frame = "row list"

text \<open>
  \<^verbatim>\<open>pd.DataFrame(records)\<close> and \<^verbatim>\<open>pd.Series(values)\<close> infer the type of a column holding
  numbers and \<^verbatim>\<open>None\<close>: a column of \<^verbatim>\<open>None\<close> only stays an object column, any
  other becomes a float column in which \<^verbatim>\<open>None\<close> is NaN.
\<close>

definition coerce :: "bool \<Rightarrow> num \<Rightarrow> num" where
  "coerce all_none v = (if all_none then v else if v = PyNone then NaN else v)"

definition infer_col :: "num list \<Rightarrow> num list" where
  "infer_col vs = map (coerce (list_all (\<lambda>v. v = PyNone) vs)) vs"

definition data_frame :: "row list \<Rightarrow> frame" where
  "data_frame records =
     (let adp_none = list_all (\<lambda>r. adp_break_minutes (adp r) = PyNone) records;
          amz_none = list_all (\<lambda>r. amz_break_minutes (amz r) = PyNone) records
      in map (\<lambda>r. r\<lparr>adp := (adp r)\<lparr>adp_break_minutes :=
                          coerce adp_none (adp_break_minutes (adp r))\<rparr>,
                      amz := (amz r)\<lparr>amz_break_minutes :=
                          coerce amz_none (amz_break_minutes (amz r))\<rparr>\<rparr>) records)"

text \<open>\<^verbatim>\<open>df.iterrows()\<close> and \<^verbatim>\<open>df.loc[label]\<close>.\<close>

definition iterrows :: "'a list \<Rightarrow> (nat \<times> 'a) list" where
  "iterrows df = enumerate 0 df"

definition loc :: "'a list \<Rightarrow> nat \<Rightarrow> error + 'a" where
  "loc df i = (if i < length df then Inr (df ! i) else Inl KeyError)"

subsection \<open>match_employees\<close>

definition THRESHOLD :: rat where
  "THRESHOLD = 33 / 100"

text \<open>The three dictionaries that \<^verbatim>\<open>match_employees\<close> appends to \<^verbatim>\<open>matches\<close>.\<close>

definition new_row :: "adp_cols \<Rightarrow> amz_cols \<Rightarrow> rat \<Rightarrow> row" where
  "new_row a b score =
     \<lparr>adp = a, amz = b, match_score = score, diff_minutes = None, severity = None,
      direction = None, needs_action = None, sort_rank = None,
      conversation_script = None\<rparr>"

definition no_adp :: adp_cols where
  "no_adp = \<lparr>adp_name = None, adp_break_start = None, adp_break_end = None,
             adp_break_minutes = PyNone\<rparr>"

definition no_amz :: amz_cols where
  "no_amz = \<lparr>amz_name = None, transporter_id = None, amz_break_start = None,
             amz_break_end = None, amz_break_minutes = PyNone\<rparr>"

definition paired :: "adp_cols \<Rightarrow> amz_cols \<Rightarrow> rat \<Rightarrow> row" where
  "paired adp_row amz_row best_score = new_row adp_row amz_row (py_round 2 best_score)"

definition adp_only :: "adp_cols \<Rightarrow> row" where
  "adp_only adp_row = new_row adp_row no_amz 0"

definition amz_only :: "amz_cols \<Rightarrow> row" where
  "amz_only amz_row = new_row no_adp amz_row 0"

text \<open>
  The inner loop: the state is \<^verbatim>\<open>(best_score, best_amz_idx)\<close>, updated only by a
  strictly greater score.
\<close>

fun best_loop ::
  "string option \<Rightarrow> (nat \<times> amz_cols) list \<Rightarrow> rat \<times> nat option \<Rightarrow> rat \<times> nat option" where
  "best_loop name [] st = st"
| "best_loop name ((amz_idx, amz_row) # rest) (best_score, best_amz_idx) =
     (let score = overlap_score name (amz_name amz_row)
      in if best_score < score then best_loop name rest (score, Some amz_idx)
         else best_loop name rest (best_score, best_amz_idx))"

text \<open>The outer loop: the state is \<^verbatim>\<open>(used_amz, matches)\<close>.\<close>

fun match_loop ::
  "adp_cols list \<Rightarrow> amz_cols list \<Rightarrow> nat set \<times> row list \<Rightarrow> error + (nat set \<times> row list)" where
  "match_loop [] amazon_df st = Inr st"
| "match_loop (adp_row # rest) amazon_df (used_amz, matches) =
     (case best_loop (adp_name adp_row) (iterrows amazon_df) (0, None) of
        (best_score, None) \<Rightarrow>
          match_loop rest amazon_df (used_amz, matches @ [adp_only adp_row])
      | (best_score, Some best_amz_idx) \<Rightarrow>
          if THRESHOLD \<le> best_score then
            (case loc amazon_df best_amz_idx of
               Inl e \<Rightarrow> Inl e
             | Inr amz_row \<Rightarrow>
                 match_loop rest amazon_df
                   (insert best_amz_idx used_amz,
                    matches @ [paired adp_row amz_row best_score]))
          else match_loop rest amazon_df (used_amz, matches @ [adp_only adp_row]))"

text \<open>The second loop, over the Amazon rows whose label is not in \<^verbatim>\<open>used_amz\<close>.\<close>

fun unmatched_loop :: "(nat \<times> amz_cols) list \<Rightarrow> nat set \<Rightarrow> row list \<Rightarrow> row list" where
  "unmatched_loop [] used_amz matches = matches"
| "unmatched_loop ((amz_idx, amz_row) # rest) used_amz matches =
     (if amz_idx \<notin> used_amz then unmatched_loop rest used_amz (matches @ [amz_only amz_row])
      else unmatched_loop rest used_amz matches)"

definition match_employees :: "adp_cols list \<Rightarrow> amz_cols list \<Rightarrow> error + frame" where
  "match_employees adp_df amazon_df =
     (case match_loop adp_df amazon_df ({}, []) of
        Inl e \<Rightarrow> Inl e
      | Inr (used_amz, matches) \<Rightarrow>
          Inr (data_frame (unmatched_loop (iterrows amazon_df) used_amz matches)))"

subsection \<open>calculate_discrepancies\<close>

text \<open>
  \<^verbatim>\<open>df.apply(f, axis=1)\<close>: \<open>f\<close> on every row in order; the first exception ends the
  call.
\<close>

fun apply_rows :: "(row \<Rightarrow> error + 'a) \<Rightarrow> frame \<Rightarrow> error + 'a list" where
  "apply_rows f [] = Inr []"
| "apply_rows f (r # rs) =
     (case f r of
        Inl e \<Rightarrow> Inl e
      | Inr v \<Rightarrow> (case apply_rows f rs of Inl e \<Rightarrow> Inl e | Inr vs \<Rightarrow> Inr (v # vs)))"

text \<open>
  The local functions \<^verbatim>\<open>_diff\<close>, \<^verbatim>\<open>_severity\<close> and \<^verbatim>\<open>_direction\<close>. In
  \<^verbatim>\<open>_diff\<close> both values pass \<^verbatim>\<open>pd.notna\<close> exactly when both are numbers.
\<close>

definition cd_diff :: "row \<Rightarrow> num" where
  "cd_diff row =
     (case amz_break_minutes (amz row) of
        Num a \<Rightarrow> (case adp_break_minutes (adp row) of
                    Num b \<Rightarrow> Num (py_round 1 (a - b))
                  | _ \<Rightarrow> PyNone)
      | _ \<Rightarrow> PyNone)"

text \<open>
  \<^verbatim>\<open>row["diff_minutes"]\<close> raises \<^verbatim>\<open>KeyError\<close> without the column, \<^verbatim>\<open>abs(None)\<close>
  raises \<^verbatim>\<open>TypeError\<close>, and every comparison with NaN is false, which leaves the
  last branch.
\<close>

definition cd_severity :: "row \<Rightarrow> error + string" where
  "cd_severity row =
     (let a = amz_break_minutes (amz row); b = adp_break_minutes (adp row)
      in if isna a \<or> isna b then Inr ''Missing Entry''
         else (case diff_minutes row of
                 None \<Rightarrow> Inl KeyError
               | Some PyNone \<Rightarrow> Inl TypeError
               | Some NaN \<Rightarrow> Inr ''Major''
               | Some (Num v) \<Rightarrow>
                   (let d = \<bar>v\<bar>
                    in if d \<le> 1 then Inr ''Match''
                       else if d \<le> 5 then Inr ''Minor''
                       else if d \<le> 15 then Inr ''Moderate''
                       else Inr ''Major'')))"

definition get_diff_minutes :: "row \<Rightarrow> num" where
  "get_diff_minutes row = (case diff_minutes row of None \<Rightarrow> PyNone | Some d \<Rightarrow> d)"

definition cd_direction :: "row \<Rightarrow> string" where
  "cd_direction row =
     (let d = get_diff_minutes row; sev = severity row
      in if sev = Some ''Missing Entry'' then ''Warning Missing''
         else (case d of
                 Num v \<Rightarrow> if \<bar>v\<bar> \<le> 1 then ''Match''
                          else if 0 < v then ''Amazon > ADP'' else ''ADP > Amazon''
               | _ \<Rightarrow> ''-''))"

text \<open>\<^verbatim>\<open>df["severity"].isin(["Minor", "Moderate", "Major", "Missing Entry"])\<close>, per row.\<close>

definition isin_action :: "row \<Rightarrow> bool" where
  "isin_action row =
     (case severity row of
        None \<Rightarrow> False
      | Some sev \<Rightarrow> sev \<in> set [''Minor'', ''Moderate'', ''Major'', ''Missing Entry''])"

text \<open>Column assignment \<^verbatim>\<open>df[column] = values\<close>, one function for each column.\<close>

definition set_diff_minutes :: "frame \<Rightarrow> num list \<Rightarrow> frame" where
  "set_diff_minutes df vs = map2 (\<lambda>r v. r\<lparr>diff_minutes := Some v\<rparr>) df vs"

definition set_severity :: "frame \<Rightarrow> string list \<Rightarrow> frame" where
  "set_severity df vs = map2 (\<lambda>r v. r\<lparr>severity := Some v\<rparr>) df vs"

definition set_direction :: "frame \<Rightarrow> string list \<Rightarrow> frame" where
  "set_direction df vs = map2 (\<lambda>r v. r\<lparr>direction := Some v\<rparr>) df vs"

definition set_needs_action :: "frame \<Rightarrow> bool list \<Rightarrow> frame" where
  "set_needs_action df vs = map2 (\<lambda>r v. r\<lparr>needs_action := Some v\<rparr>) df vs"

definition set_sort_rank :: "frame \<Rightarrow> nat list \<Rightarrow> frame" where
  "set_sort_rank df vs = map2 (\<lambda>r v. r\<lparr>sort_rank := Some v\<rparr>) df vs"

definition set_conversation_script :: "frame \<Rightarrow> string list \<Rightarrow> frame" where
  "set_conversation_script df vs = map2 (\<lambda>r v. r\<lparr>conversation_script := Some v\<rparr>) df vs"

text \<open>
  Frames are objects: a variable holds a reference, and a column assignment changes the
  frame behind it. The store is the list of the frames allocated so far, a reference is
  a position in it.
\<close>

type_synonym store = "frame list"

definition alloc :: "frame \<Rightarrow> store \<Rightarrow> nat \<times> store" where
  "alloc f s = (length s, s @ [f])"

text \<open>
  \<^verbatim>\<open>calculate_discrepancies(df)\<close> assigns four columns of the frame it is given, each
  computed from the frame as it is at that moment, and returns the reference it was
  given.
\<close>

definition calculate_discrepancies :: "nat \<Rightarrow> store \<Rightarrow> error + (nat \<times> store)" where
  "calculate_discrepancies df s =
     (let s1 = s[df := set_diff_minutes (s ! df) (infer_col (map cd_diff (s ! df)))]
      in case apply_rows cd_severity (s1 ! df) of
           Inl e \<Rightarrow> Inl e
         | Inr sevs \<Rightarrow>
             (let s2 = s1[df := set_severity (s1 ! df) sevs];
                  s3 = s2[df := set_direction (s2 ! df) (map cd_direction (s2 ! df))];
                  s4 = s3[df := set_needs_action (s3 ! df) (map isin_action (s3 ! df))]
              in Inr (df, s4)))"

subsection \<open>build_script\<close>

text \<open>
  \<^verbatim>\<open>f"{x:.0f}"\<close>: \<^verbatim>\<open>None\<close> has no such format (\<^verbatim>\<open>TypeError\<close>), NaN prints as
  \<^verbatim>\<open>nan\<close>, a number is rounded to an integer and printed with its sign.
\<close>

definition digit_char :: "nat \<Rightarrow> char" where
  "digit_char d = char_of (48 + d)"

fun str_nat :: "nat \<Rightarrow> string" where
  "str_nat n = (if n < 10 then [digit_char n] else str_nat (n div 10) @ [digit_char (n mod 10)])"

declare str_nat.simps [simp del]

fun fmt0 :: "num \<Rightarrow> error + string" where
  "fmt0 PyNone = Inl TypeError"
| "fmt0 NaN = Inr ''nan''"
| "fmt0 (Num x) = Inr ((if x < 0 then ''-'' else []) @ str_nat (nat \<bar>round_half_even x\<bar>))"

text \<open>\<^verbatim>\<open>abs(diff)\<close> and \<^verbatim>\<open>diff > 0\<close>.\<close>

fun py_abs :: "num \<Rightarrow> error + num" where
  "py_abs PyNone = Inl TypeError"
| "py_abs NaN = Inr NaN"
| "py_abs (Num x) = Inr (Num \<bar>x\<bar>)"

fun gt0 :: "num \<Rightarrow> error + bool" where
  "gt0 PyNone = Inl TypeError"
| "gt0 NaN = Inr False"
| "gt0 (Num x) = Inr (0 < x)"

text \<open>\<^verbatim>\<open>x or y\<close> on names: \<^verbatim>\<open>None\<close> and the empty string are false.\<close>

fun py_or :: "string option \<Rightarrow> string option \<Rightarrow> string option" where
  "py_or (Some x) y = (if x = [] then y else Some x)"
| "py_or None y = y"

definition employee :: "row \<Rightarrow> string" where
  "employee row =
     (case py_or (py_or (adp_name (adp row)) (amz_name (amz row))) (Some ''Employee'') of
        Some emp \<Rightarrow> emp
      | None \<Rightarrow> ''None'')"

definition bind :: "error + 'a \<Rightarrow> ('a \<Rightarrow> error + 'b) \<Rightarrow> error + 'b" where
  "bind m f = (case m of Inl e \<Rightarrow> Inl e | Inr v \<Rightarrow> f v)"

definition build_script :: "row \<Rightarrow> error + string" where
  "build_script row =
     (let emp = employee row;
          sev = (case severity row of None \<Rightarrow> [] | Some v \<Rightarrow> v);
          a_m = amz_break_minutes (amz row);
          b_m = adp_break_minutes (adp row);
          diff = get_diff_minutes row
      in if sev = ''Match'' then Inr ''No action needed - break times match.''
         else if sev = ''Missing Entry'' then
           (if isna a_m then
              bind (fmt0 b_m) (\<lambda>b_txt. Inr (
                ''Hi '' @ emp @ '', I see you have a break logged in ADP ('' @ b_txt @ '' min) '' @
                ''but we have no record in the Amazon Delivery App. '' @
                ''Did you log your break in the app today? Please update it before end of day.''))
            else
              bind (fmt0 a_m) (\<lambda>a_txt. Inr (
                ''Hi '' @ emp @ '', we have your break in the Amazon app ('' @ a_txt @ '' min) '' @
                ''but there is no matching entry in ADP. '' @
                ''Can you log your break in ADP before 5 PM today?'')))
         else
           bind (gt0 diff) (\<lambda>pos.
           let longer = (if pos then ''Amazon app'' else ''ADP'');
               shorter = (if pos then ''ADP'' else ''Amazon app'')
           in bind (py_abs diff) (\<lambda>abs_diff.
              bind (fmt0 abs_diff) (\<lambda>d_txt.
              bind (fmt0 a_m) (\<lambda>a_txt.
              bind (fmt0 b_m) (\<lambda>b_txt. Inr (
                ''Hi '' @ emp @ '', we noticed a discrepancy in your break times today - '' @
                ''your '' @ longer @ '' shows '' @ d_txt @ '' more minutes than your '' @ shorter @ ''. '' @
                ''Amazon recorded '' @ a_txt @ '' min and ADP recorded '' @ b_txt @ '' min. '' @
                ''Please review both entries and correct whichever is inaccurate by end of day.'')))))))"

subsection \<open>run_analysis\<close>

definition sev_order :: "string \<rightharpoonup> nat" where
  "sev_order = map_of [(''Major'', 0), (''Moderate'', 1), (''Minor'', 2),
                       (''Missing Entry'', 3), (''Match'', 4)]"

text \<open>\<^verbatim>\<open>result["severity"].map(sev_order).fillna(5)\<close>, per row.\<close>

definition sort_rank_of :: "row \<Rightarrow> nat" where
  "sort_rank_of row =
     (case severity row of
        None \<Rightarrow> 5
      | Some sev \<Rightarrow> (case sev_order sev of None \<Rightarrow> 5 | Some k \<Rightarrow> k))"

text \<open>
  The key of \<^verbatim>\<open>sort_values(["_sort", "adp_name"])\<close>: ascending in both columns, strings
  by code point, a missing name behind every name.
\<close>

definition sort_columns :: "row \<Rightarrow> nat \<times> nat \<times> string" where
  "sort_columns row =
     (case sort_rank row of None \<Rightarrow> 5 | Some k \<Rightarrow> k,
      case adp_name (adp row) of None \<Rightarrow> (1, []) | Some name \<Rightarrow> (0, name))"

text \<open>
  The sort is stable and returns a new frame. A frame made from an empty list of
  records has no columns at all, and sorting it by \<^verbatim>\<open>adp_name\<close> raises
  \<^verbatim>\<open>KeyError\<close>.
\<close>

definition sort_values :: "frame \<Rightarrow> error + frame" where
  "sort_values df =
     (if df = [] \<or> (\<exists>r\<in>set df. sort_rank r = None) then Inl KeyError
      else Inr (sort_key sort_columns df))"

text \<open>
  \<^verbatim>\<open>run_analysis\<close> behind the two parsers: \<open>adp_df\<close> and \<open>amazon_df\<close> are the frames
  they return.
\<close>

definition run_analysis :: "adp_cols list \<Rightarrow> amz_cols list \<Rightarrow> store \<Rightarrow> error + (nat \<times> store)" where
  "run_analysis adp_df amazon_df s =
     bind (match_employees adp_df amazon_df) (\<lambda>m.
     case alloc m s of (merged, s1) \<Rightarrow>
     bind (calculate_discrepancies merged s1) (\<lambda>(result, s2).
     let s3 = s2[result := set_sort_rank (s2 ! result) (map sort_rank_of (s2 ! result))]
     in bind (sort_values (s3 ! result)) (\<lambda>sorted_df.
        case alloc sorted_df s3 of (result', s4) \<Rightarrow>
        bind (apply_rows build_script (s4 ! result')) (\<lambda>scripts.
        Inr (result', s4[result' := set_conversation_script (s4 ! result') scripts])))))"

subsection \<open>The classifier, row by row\<close>

text \<open>
  What the four column assignments of \<^verbatim>\<open>calculate_discrepancies\<close> do to one row, in
  the order of the assignments. \<open>all_none\<close> says whether \<^verbatim>\<open>_diff\<close> returned
  \<^verbatim>\<open>None\<close> on every row of the frame, which decides the type of the new column.
\<close>

definition step_diff :: "bool \<Rightarrow> row \<Rightarrow> row" where
  "step_diff all_none r = r\<lparr>diff_minutes := Some (coerce all_none (cd_diff r))\<rparr>"

definition step_severity :: "row \<Rightarrow> row" where
  "step_severity r =
     r\<lparr>severity := (case cd_severity r of Inl e \<Rightarrow> None | Inr v \<Rightarrow> Some v)\<rparr>"

definition step_direction :: "row \<Rightarrow> row" where
  "step_direction r = r\<lparr>direction := Some (cd_direction r)\<rparr>"

definition step_needs_action :: "row \<Rightarrow> row" where
  "step_needs_action r = r\<lparr>needs_action := Some (isin_action r)\<rparr>"

definition classified :: "bool \<Rightarrow> row \<Rightarrow> row" where
  "classified all_none r =
     step_needs_action (step_direction (step_severity (step_diff all_none r)))"

definition classify :: "frame \<Rightarrow> frame" where
  "classify df = map (classified (list_all (\<lambda>r. cd_diff r = PyNone) df)) df"

definition step_sort_rank :: "row \<Rightarrow> row" where
  "step_sort_rank r = r\<lparr>sort_rank := Some (sort_rank_of r)\<rparr>"

subsection \<open>The matcher as the specification describes it\<close>

text \<open>
  Every source-A record chooses on its own: it is scored against every source-B record,
  the best score is the maximum, the chosen record is the first one that reaches it,
  and the choice is accepted from \<open>THRESHOLD\<close> on. \<open>stored\<close> is what is written into
  the score field of an accepted pair. A source-B record is claimed when some source-A
  record chose it; the unclaimed ones follow the source-A records, in their order.
\<close>

definition scores :: "string option \<Rightarrow> amz_cols list \<Rightarrow> rat list" where
  "scores name amazon_df = map (\<lambda>b. overlap_score name (amz_name b)) amazon_df"

definition index_of :: "rat \<Rightarrow> rat list \<Rightarrow> nat" where
  "index_of m ss = length (takeWhile (\<lambda>x. x \<noteq> m) ss)"

definition spec_choice :: "adp_cols \<Rightarrow> amz_cols list \<Rightarrow> (nat \<times> rat) option" where
  "spec_choice a bs =
     (if bs = [] then None
      else let ss = scores (adp_name a) bs; best = Max (set ss)
           in if THRESHOLD \<le> best then Some (index_of best ss, best) else None)"

definition spec_claimed :: "adp_cols list \<Rightarrow> amz_cols list \<Rightarrow> nat set" where
  "spec_claimed as bs = fst ` (\<Union>a\<in>set as. set_option (spec_choice a bs))"

definition spec_row :: "(rat \<Rightarrow> rat) \<Rightarrow> amz_cols list \<Rightarrow> adp_cols \<Rightarrow> row" where
  "spec_row stored bs a =
     (case spec_choice a bs of
        Some (j, best) \<Rightarrow> new_row a (bs ! j) (stored best)
      | None \<Rightarrow> new_row a no_amz 0)"

definition matcher_spec :: "(rat \<Rightarrow> rat) \<Rightarrow> adp_cols list \<Rightarrow> amz_cols list \<Rightarrow> row list" where
  "matcher_spec stored as bs =
     map (spec_row stored bs) as @
     [new_row no_adp b 0. (j, b) \<leftarrow> enumerate 0 bs, j \<notin> spec_claimed as bs]"

subsection \<open>Example inputs\<close>

definition adp_rec :: "string \<Rightarrow> num \<Rightarrow> adp_cols" where
  "adp_rec name minutes =
     \<lparr>adp_name = Some name, adp_break_start = None, adp_break_end = None,
      adp_break_minutes = minutes\<rparr>"

definition amz_rec :: "string \<Rightarrow> string \<Rightarrow> num \<Rightarrow> amz_cols" where
  "amz_rec name tid minutes =
     \<lparr>amz_name = Some name, transporter_id = Some tid, amz_break_start = None,
      amz_break_end = None, amz_break_minutes = minutes\<rparr>"

text \<open>
  Two ADP employees whose names both score 2/3 against the first Amazon record, and a
  second Amazon record that nobody chooses.
\<close>

definition ex_adp :: "adp_cols list" where
  "ex_adp = [adp_rec ''Ann Lee Roy'' (Num 20), adp_rec ''Ann Lee Kim'' (Num 31)]"

definition ex_amz :: "amz_cols list" where
  "ex_amz = [amz_rec ''Ann Lee Fox'' ''T1'' (Num 30), amz_rec ''Zed Young'' ''T2'' (Num 25)]"

definition ex_merged :: frame where
  "ex_merged =
     [new_row (adp_rec ''Ann Lee Roy'' (Num 20)) (amz_rec ''Ann Lee Fox'' ''T1'' (Num 30)) (67 / 100),
      new_row (adp_rec ''Ann Lee Kim'' (Num 31)) (amz_rec ''Ann Lee Fox'' ''T1'' (Num 30)) (67 / 100),
      new_row (no_adp\<lparr>adp_break_minutes := NaN\<rparr>) (amz_rec ''Zed Young'' ''T2'' (Num 25)) 0]"

text \<open>
  Four employees none of whom is matched: two ADP records out of alphabetical order
  and two Amazon records out of alphabetical order.
\<close>

definition srt_adp :: "adp_cols list" where
  "srt_adp = [adp_rec ''Bob Stone'' (Num 15), adp_rec ''Al Green'' (Num 20)]"

definition srt_amz :: "amz_cols list" where
  "srt_amz = [amz_rec ''Zed Young'' ''T1'' (Num 25), amz_rec ''Amy Adams'' ''T2'' (Num 20)]"

text \<open>
  An ADP employee for whom the parser found no break, so that the minutes are
  \<^verbatim>\<open>None\<close>, and the row of the classified frame that this employee becomes when the
  Amazon frame has no record.
\<close>

definition jane :: adp_cols where
  "jane = adp_rec ''Jane Doe'' PyNone"

definition jane_row :: row where
  "jane_row = classified True (adp_only jane)"

text \<open>
  The same row in a frame whose minutes columns are float columns, as they are when
  some other row has minutes: the absent values are NaN.
\<close>

definition jane_nan :: row where
  "jane_nan =
     classified False
       (new_row (jane\<lparr>adp_break_minutes := NaN\<rparr>) (no_amz\<lparr>amz_break_minutes := NaN\<rparr>) 0)"

subsection \<open>Reading results\<close>

text \<open>A column of the frame that the pipeline returns.\<close>

definition columns :: "(row \<Rightarrow> 'a) \<Rightarrow> error + nat \<times> store \<Rightarrow> error + 'a list" where
  "columns f res = (case res of Inl e \<Rightarrow> Inl e | Inr (p, s) \<Rightarrow> Inr (map f (s ! p)))"

text \<open>The order of the column \<^verbatim>\<open>adp_name\<close> in the sort: a missing name is last.\<close>

fun name_le :: "string option \<Rightarrow> string option \<Rightarrow> bool" where
  "name_le (Some x) (Some y) = (x \<le> y)"
| "name_le (Some x) None = True"
| "name_le None (Some y) = False"
| "name_le None None = True"

text \<open>A row without its script.\<close>

definition unscripted :: "row \<Rightarrow> row" where
  "unscripted r = r\<lparr>conversation_script := None\<rparr>"

section \<open>Verification\<close>

subsection \<open>The matcher\<close>

lemma index_of_Cons: "index_of m (s # ss) = (if s = m then 0 else Suc (index_of m ss))"
  by (simp add: index_of_def)

lemma index_of_less: "m \<in> set ss \<Longrightarrow> index_of m ss < length ss"
  unfolding index_of_def by (induction ss) auto

text \<open>
  The inner loop from any state: nothing changes unless some score exceeds the running
  best, and then the result is the maximum and the first position that reaches it.
\<close>

lemma best_loop_eq:
  "best_loop name (enumerate k bs) (m0, i0) =
     (let ss = scores name bs
      in if \<forall>x\<in>set ss. x \<le> m0 then (m0, i0)
         else (Max (set ss), Some (k + index_of (Max (set ss)) ss)))"
proof (induction bs arbitrary: k m0 i0)
  case Nil
  then show ?case by (simp add: scores_def)
next
  case (Cons b bs)
  define s where "s = overlap_score name (amz_name b)"
  define ss where "ss = scores name bs"
  have sc: "scores name (b # bs) = s # ss" by (simp add: scores_def s_def ss_def)
  show ?case
  proof (cases "m0 < s")
    case True
    have step: "best_loop name (enumerate k (b # bs)) (m0, i0) =
        best_loop name (enumerate (Suc k) bs) (s, Some k)"
      using True by (simp add: s_def)
    show ?thesis
    proof (cases "\<forall>x\<in>set ss. x \<le> s")
      case all: True
      have "Max (set (s # ss)) = s"
        using all by (auto intro!: Max_eqI)
      then show ?thesis
        using True all unfolding step Cons.IH sc Let_def ss_def [symmetric]
        by (auto simp: index_of_Cons)
    next
      case ex: False
      then have ne: "set ss \<noteq> {}" by auto
      have gt: "s < Max (set ss)" using ex ne by (auto simp: Max_gr_iff not_le)
      have "Max (set (s # ss)) = Max (set ss)"
        using gt ne by (simp add: max_def)
      then show ?thesis
        using True ex gt unfolding step Cons.IH sc Let_def ss_def [symmetric]
        by (auto simp: index_of_Cons)
    qed
  next
    case False
    have step: "best_loop name (enumerate k (b # bs)) (m0, i0) =
        best_loop name (enumerate (Suc k) bs) (m0, i0)"
      using False by (simp add: s_def)
    show ?thesis
    proof (cases "\<forall>x\<in>set ss. x \<le> m0")
      case all: True
      then show ?thesis
        using False unfolding step Cons.IH sc Let_def ss_def [symmetric] by auto
    next
      case ex: False
      then have ne: "set ss \<noteq> {}" by auto
      have gt: "m0 < Max (set ss)" using ex ne by (auto simp: Max_gr_iff not_le)
      have "Max (set (s # ss)) = Max (set ss)"
        using gt ne False by (simp add: max_def)
      then show ?thesis
        using False ex gt unfolding step Cons.IH sc Let_def ss_def [symmetric]
        by (auto simp: index_of_Cons)
    qed
  qed
qed

lemma overlap_score_nonneg: "0 \<le> overlap_score a b"
  by (simp add: overlap_score_def Let_def)

lemma THRESHOLD_pos: "0 < THRESHOLD"
  by (simp add: THRESHOLD_def)

text \<open>One turn of the outer loop does what the record's own choice says.\<close>

lemma match_step:
  "match_loop (a # rest) bs (used, ms) =
     match_loop rest bs
       (case spec_choice a bs of
          Some (j, best) \<Rightarrow> (insert j used, ms @ [paired a (bs ! j) best])
        | None \<Rightarrow> (used, ms @ [adp_only a]))"
proof -
  define ss where "ss = scores (adp_name a) bs"
  show ?thesis
  proof (cases "\<forall>x\<in>set ss. x \<le> 0")
    case True
    have loop: "best_loop (adp_name a) (iterrows bs) (0, None) = (0, None)"
      using True by (simp add: iterrows_def best_loop_eq ss_def)
    have "spec_choice a bs = None"
    proof (cases "bs = []")
      case False
      then have "set ss \<noteq> {}" by (simp add: ss_def scores_def)
      then have "Max (set ss) \<le> 0" using True by simp
      then show ?thesis
        using THRESHOLD_pos by (simp add: spec_choice_def Let_def ss_def [symmetric])
    qed (simp add: spec_choice_def)
    then show ?thesis by (simp add: loop)
  next
    case False
    then have ne: "set ss \<noteq> {}" by auto
    then have bs: "bs \<noteq> []" by (auto simp: ss_def scores_def)
    define best where "best = Max (set ss)"
    have loop: "best_loop (adp_name a) (iterrows bs) (0, None) = (best, Some (index_of best ss))"
      using False by (simp add: iterrows_def best_loop_eq ss_def [symmetric] best_def)
    have "best \<in> set ss" unfolding best_def using ne by (intro Max_in) auto
    then have "index_of best ss < length bs"
      using index_of_less [of best ss] by (simp add: ss_def scores_def)
    then have loc: "loc bs (index_of best ss) = Inr (bs ! index_of best ss)"
      by (simp add: loc_def)
    show ?thesis
      using bs
      by (simp add: loop loc spec_choice_def Let_def ss_def [symmetric] best_def [symmetric])
  qed
qed

lemma match_loop_eq:
  "match_loop as bs (used, ms) =
     Inr (used \<union> spec_claimed as bs, ms @ map (spec_row (py_round 2) bs) as)"
proof (induction as arbitrary: used ms)
  case Nil
  then show ?case by (simp add: spec_claimed_def)
next
  case (Cons a as)
  show ?case
  proof (cases "spec_choice a bs")
    case None
    then show ?thesis
      unfolding match_step by (simp add: Cons.IH spec_claimed_def spec_row_def adp_only_def)
  next
    case (Some c)
    then show ?thesis
      unfolding match_step
      by (cases c) (auto simp: Cons.IH spec_claimed_def spec_row_def paired_def)
  qed
qed

lemma unmatched_loop_eq:
  "unmatched_loop xs used ms = ms @ [new_row no_adp b 0. (j, b) \<leftarrow> xs, j \<notin> used]"
  by (induction xs arbitrary: ms) (auto simp: amz_only_def)

lemma match_employees_eq:
  "match_employees adp_df amazon_df =
     Inr (data_frame (matcher_spec (py_round 2) adp_df amazon_df))"
  by (simp add: match_employees_def match_loop_eq unmatched_loop_eq matcher_spec_def
      iterrows_def)

lemma round_half_even_ge: "of_int n \<le> x \<Longrightarrow> n \<le> round_half_even x"
proof -
  assume "of_int n \<le> x"
  then have "n \<le> \<lfloor>x\<rfloor>" by (simp add: le_floor_iff)
  then show ?thesis by (simp add: round_half_even_def Let_def)
qed

lemma py_round_2_threshold: "THRESHOLD \<le> x \<Longrightarrow> THRESHOLD \<le> py_round 2 x"
proof -
  assume "THRESHOLD \<le> x"
  then have "of_int 33 \<le> x * 10 ^ 2" by (simp add: THRESHOLD_def)
  then have "33 \<le> round_half_even (x * 10 ^ 2)" by (rule round_half_even_ge)
  then have "(33 :: rat) \<le> of_int (round_half_even (x * 10 ^ 2))" by linarith
  then show ?thesis by (simp add: THRESHOLD_def py_round_def)
qed

lemma spec_choice_Some:
  "spec_choice a bs = Some (j, best) \<Longrightarrow> THRESHOLD \<le> best \<and> j < length bs"
proof -
  assume h: "spec_choice a bs = Some (j, best)"
  define ss where "ss = scores (adp_name a) bs"
  from h have ne: "bs \<noteq> []" by (auto simp: spec_choice_def)
  then have "set ss \<noteq> {}" by (simp add: ss_def scores_def)
  then have "Max (set ss) \<in> set ss" by (intro Max_in) auto
  then have "index_of (Max (set ss)) ss < length bs"
    using index_of_less [of "Max (set ss)" ss] by (simp add: ss_def scores_def)
  then show ?thesis
    using h ne by (auto simp: spec_choice_def Let_def ss_def [symmetric] split: if_splits)
qed

lemma matcher_spec_scores:
  "r \<in> set (matcher_spec (py_round 2) as bs) \<Longrightarrow>
     match_score r = 0 \<or> THRESHOLD \<le> match_score r"
  using spec_choice_Some py_round_2_threshold
  by (fastforce simp: matcher_spec_def spec_row_def new_row_def split: option.splits)


lemma data_frame_keeps:
  "r \<in> set (data_frame rs) \<Longrightarrow>
     \<exists>r0\<in>set rs. match_score r = match_score r0 \<and> adp_name (adp r) = adp_name (adp r0) \<and>
       amz_name (amz r) = amz_name (amz r0)"
  by (auto simp: data_frame_def Let_def)

lemma ex_match_employees: "match_employees ex_adp ex_amz = Inr ex_merged"
  by code_simp

lemma ex_choice: "spec_choice (adp_rec ''Ann Lee Roy'' (Num 20)) ex_amz = Some (0, 2 / 3)"
  by code_simp

text \<open>
  Claim C2, as amended. For every ordered source-A frame and every source-B frame the
  matcher returns, without raising, what the specification describes: each source-A
  record, in the given order, is scored against every source-B record, claimed or not;
  the best score is the maximum and the chosen record the first that reaches it; from
  0.33 on the pair is emitted and the source-B record is claimed, otherwise (also with no
  source-B record at all) the source-A record is emitted alone with score 0; the
  source-B records that nobody chose follow, each alone with score 0. The score written
  on a pair is the best score rounded to two decimal places.
\<close>

theorem match_employees_refines_spec:
  "match_employees adp_df amazon_df =
     Inr (data_frame (matcher_spec (py_round 2) adp_df amazon_df))"
  by (rule match_employees_eq)

text \<open>
  On the example both ADP records are paired with the first Amazon record, with the
  stored score 0.67, and the second Amazon record is emitted alone.
\<close>

theorem match_employees_refines_spec_witness:
  "match_employees ex_adp ex_amz = Inr (data_frame (matcher_spec (py_round 2) ex_adp ex_amz)) \<and>
   data_frame (matcher_spec (py_round 2) ex_adp ex_amz) = ex_merged"
  using match_employees_refines_spec [of ex_adp ex_amz] by (simp add: ex_match_employees)

text \<open>
  Claim C2 as it is written has the pair emitted with the best score itself. On the
  example the best score is 2/3 and the pair carries 0.67.
\<close>

theorem stored_score_is_rounded_counterexample:
  "match_employees ex_adp ex_amz \<noteq> Inr (data_frame (matcher_spec id ex_adp ex_amz))"
proof
  assume "match_employees ex_adp ex_amz = Inr (data_frame (matcher_spec id ex_adp ex_amz))"
  then have "map match_score ex_merged =
      map match_score (data_frame (matcher_spec id ex_adp ex_amz))"
    by (simp add: ex_match_employees)
  then have "hd (map match_score ex_merged) = match_score (spec_row id ex_amz (hd ex_adp))"
    by (simp add: data_frame_def Let_def matcher_spec_def ex_adp_def o_def)
  then show False
    by (simp add: ex_merged_def new_row_def spec_row_def ex_adp_def ex_choice)
qed

text \<open>
  Claim C8. Every row that the matcher returns carries a score that is 0 or at least
  0.33; rounding the best score to two decimal places never takes it below 0.33.
\<close>

theorem match_score_zero_or_threshold:
  "\<exists>m. match_employees adp_df amazon_df = Inr m \<and>
       (\<forall>r\<in>set m. match_score r = 0 \<or> 33 / 100 \<le> match_score r)"
proof -
  let ?m = "data_frame (matcher_spec (py_round 2) adp_df amazon_df)"
  have "match_score r = 0 \<or> 33 / 100 \<le> match_score r" if "r \<in> set ?m" for r
  proof -
    from data_frame_keeps [OF that] obtain r0
      where "r0 \<in> set (matcher_spec (py_round 2) adp_df amazon_df)"
        and "match_score r = match_score r0" by blast
    then show ?thesis using matcher_spec_scores [of r0] by (simp add: THRESHOLD_def)
  qed
  then show ?thesis by (simp add: match_employees_eq)
qed

theorem match_score_zero_or_threshold_witness:
  "match_employees ex_adp ex_amz = Inr ex_merged \<and>
   map match_score ex_merged = [67 / 100, 67 / 100, 0] \<and>
   list_all (\<lambda>r. match_score r = 0 \<or> 33 / 100 \<le> match_score r) ex_merged"
  using match_score_zero_or_threshold [of ex_adp ex_amz]
  by (simp add: ex_match_employees list_all_iff) (simp add: ex_merged_def new_row_def)



subsection \<open>Scenario 1\<close>

lemma john_smith_tokens: "name_tokens (Some ''John Smith'') = {''john'', ''smith''}"
  by code_simp

lemma johnsmith99_tokens: "name_tokens (Some ''JohnSmith99'') = {''john'', ''smith''}"
  by code_simp

lemma john_smith_score: "overlap_score (Some ''John Smith'') (Some ''JohnSmith99'') = 1"
  by code_simp

text \<open>
  Claim C6 as it is written gives \<^verbatim>\<open>JohnSmith99\<close> the single token \<^verbatim>\<open>johnsmith\<close>. The
  tokenizer splits the name at its camel-case boundary first.
\<close>

theorem scenario_1_tokens_counterexample:
  "name_tokens (Some ''JohnSmith99'') \<noteq> {''johnsmith''}"
  by code_simp

text \<open>
  Claim C6, as amended. \<^verbatim>\<open>John Smith\<close> and \<^verbatim>\<open>JohnSmith99\<close> both have the tokens
  \<^verbatim>\<open>john\<close> and \<^verbatim>\<open>smith\<close>; both source-A tokens are matched, the score is
  2/max(2,2) = 1.0, which is at least 0.33, and the matcher pairs the two records,
  whatever their other fields are.
\<close>

theorem scenario_1:
  "name_tokens (Some ''John Smith'') = {''john'', ''smith''} \<and>
   name_tokens (Some ''JohnSmith99'') = {''john'', ''smith''} \<and>
   token_matches {''john'', ''smith''} {''john'', ''smith''} = 2 \<and>
   overlap_score (Some ''John Smith'') (Some ''JohnSmith99'') = 2 / of_nat (max 2 2) \<and>
   overlap_score (Some ''John Smith'') (Some ''JohnSmith99'') = 1 \<and>
   THRESHOLD \<le> overlap_score (Some ''John Smith'') (Some ''JohnSmith99'') \<and>
   match_employees [a\<lparr>adp_name := Some ''John Smith''\<rparr>] [b\<lparr>amz_name := Some ''JohnSmith99''\<rparr>] =
     Inr (data_frame [new_row (a\<lparr>adp_name := Some ''John Smith''\<rparr>)
                              (b\<lparr>amz_name := Some ''JohnSmith99''\<rparr>) 1])"
proof -
  have tm: "token_matches {''john'', ''smith''} {''john'', ''smith''} = 2"
    by code_simp
  have r: "py_round 2 1 = 1" by code_simp
  let ?a = "a\<lparr>adp_name := Some ''John Smith''\<rparr>" and ?b = "b\<lparr>amz_name := Some ''JohnSmith99''\<rparr>"
  have ch: "spec_choice ?a [?b] = Some (0, 1)"
    by (simp add: spec_choice_def scores_def john_smith_score THRESHOLD_def index_of_def)
  have "matcher_spec (py_round 2) [?a] [?b] = [new_row ?a ?b 1]"
    by (simp add: matcher_spec_def spec_row_def ch spec_claimed_def r enumerate_eq_zip)
  then show ?thesis
    by (simp add: john_smith_tokens johnsmith99_tokens tm john_smith_score THRESHOLD_def
        match_employees_eq)
qed

subsection \<open>The classifier\<close>

lemma apply_rows_Inr:
  "(\<And>r. r \<in> set df \<Longrightarrow> f r = Inr (g r)) \<Longrightarrow> apply_rows f df = Inr (map g df)"
  by (induction df) simp_all

lemma map2_same: "map2 f xs (map g xs) = map (\<lambda>x. f x (g x)) xs"
  by (induction xs) simp_all

lemma infer_col_map:
  "infer_col (map g xs) = map (\<lambda>x. coerce (list_all (\<lambda>r. g r = PyNone) xs) (g x)) xs"
  by (simp add: infer_col_def list_all_iff)

lemma cd_severity_step_diff: "\<exists>v. cd_severity (step_diff an r) = Inr v"
  by (simp add: step_diff_def cd_severity_def cd_diff_def coerce_def Let_def split: num.splits)

lemma calculate_discrepancies_eq:
  assumes "df < length s"
  shows "calculate_discrepancies df s = Inr (df, s[df := classify (s ! df)])"
proof -
  define f0 where "f0 = s ! df"
  define an where "an = list_all (\<lambda>r. cd_diff r = PyNone) f0"
  define sevtxt where "sevtxt = (\<lambda>r. case cd_severity r of Inl e \<Rightarrow> [] | Inr v \<Rightarrow> v)"
  define f1 where "f1 = map (step_diff an) f0"
  define f2 where "f2 = map step_severity f1"
  define f3 where "f3 = map step_direction f2"
  define f4 where "f4 = map step_needs_action f3"
  have e1: "set_diff_minutes f0 (infer_col (map cd_diff f0)) = f1"
    by (simp add: set_diff_minutes_def infer_col_map map2_same f1_def an_def step_diff_def)
  have ok: "cd_severity r = Inr (sevtxt r)" if "r \<in> set f1" for r
  proof -
    from that obtain r0 where "r = step_diff an r0" by (auto simp: f1_def)
    then obtain v where "cd_severity r = Inr v" using cd_severity_step_diff by blast
    then show ?thesis by (simp add: sevtxt_def)
  qed
  have sev: "apply_rows cd_severity f1 = Inr (map sevtxt f1)"
    by (rule apply_rows_Inr) (rule ok)
  have e2: "set_severity f1 (map sevtxt f1) = f2"
    by (simp add: set_severity_def map2_same f2_def step_severity_def ok)
  have e3: "set_direction f2 (map cd_direction f2) = f3"
    by (simp add: set_direction_def map2_same f3_def step_direction_def)
  have e4: "set_needs_action f3 (map isin_action f3) = f4"
    by (simp add: set_needs_action_def map2_same f4_def step_needs_action_def)
  have e5: "f4 = classify f0"
    by (simp add: f4_def f3_def f2_def f1_def classify_def classified_def an_def)
  show ?thesis
    using assms
    by (simp add: calculate_discrepancies_def Let_def f0_def [symmetric] e1 sev e2 e3 e4 e5)
qed

text \<open>The fields of a classified row.\<close>

lemma classified_keeps:
  "adp (classified an r) = adp r" "amz (classified an r) = amz r"
  "match_score (classified an r) = match_score r"
  "sort_rank (classified an r) = sort_rank r"
  "conversation_script (classified an r) = conversation_script r"
  by (simp_all add: classified_def step_diff_def step_severity_def step_direction_def
      step_needs_action_def)

lemma classified_diff: "diff_minutes (classified an r) = Some (coerce an (cd_diff r))"
  by (simp add: classified_def step_diff_def step_severity_def step_direction_def
      step_needs_action_def)

lemma classified_needs_action:
  "needs_action (classified an r) =
     Some (severity (classified an r) \<in>
       {Some ''Minor'', Some ''Moderate'', Some ''Major'', Some ''Missing Entry''})"
  by (auto simp: classified_def step_diff_def step_severity_def step_direction_def
      step_needs_action_def isin_action_def split: sum.splits)

lemma classified_absent:
  assumes "isna (adp_break_minutes (adp r)) \<or> isna (amz_break_minutes (amz r))"
  shows "isna (get_diff_minutes (classified an r))"
    and "severity (classified an r) = Some ''Missing Entry''"
    and "direction (classified an r) = Some ''Warning Missing''"
  using assms
  by (auto simp: classified_def step_diff_def step_severity_def step_direction_def
      step_needs_action_def get_diff_minutes_def cd_diff_def cd_severity_def cd_direction_def
      coerce_def split: num.splits)

lemma classified_present:
  assumes "adp_break_minutes (adp r) = Num x" and "amz_break_minutes (amz r) = Num y"
  defines "delta \<equiv> py_round 1 (y - x)"
  shows "diff_minutes (classified an r) = Some (Num delta)"
    and "severity (classified an r) =
           Some (if \<bar>delta\<bar> \<le> 1 then ''Match'' else if \<bar>delta\<bar> \<le> 5 then ''Minor''
                 else if \<bar>delta\<bar> \<le> 15 then ''Moderate'' else ''Major'')"
    and "direction (classified an r) =
           Some (if \<bar>delta\<bar> \<le> 1 then ''Match''
                 else if 0 < delta then ''Amazon > ADP'' else ''ADP > Amazon'')"
  using assms(1,2) unfolding delta_def
  by (simp_all add: classified_def step_diff_def step_severity_def step_direction_def
      step_needs_action_def get_diff_minutes_def cd_diff_def cd_severity_def cd_direction_def
      coerce_def Let_def)

lemma isna_cases: "isna v \<or> (\<exists>x. v = Num x)"
  by (cases v) simp_all

lemma classified_graded:
  fixes r :: row
  defines "a \<equiv> adp_break_minutes (adp r)" and "b \<equiv> amz_break_minutes (amz r)"
  shows "(\<forall>x y. a = Num x \<and> b = Num y \<longrightarrow>
            diff_minutes (classified an r) = Some (Num (py_round 1 (y - x))) \<and>
            severity (classified an r) =
              Some (if \<bar>py_round 1 (y - x)\<bar> \<le> 1 then ''Match''
                    else if \<bar>py_round 1 (y - x)\<bar> \<le> 5 then ''Minor''
                    else if \<bar>py_round 1 (y - x)\<bar> \<le> 15 then ''Moderate'' else ''Major'') \<and>
            direction (classified an r) =
              Some (if \<bar>py_round 1 (y - x)\<bar> \<le> 1 then ''Match''
                    else if 0 < py_round 1 (y - x) then ''Amazon > ADP'' else ''ADP > Amazon'')) \<and>
         (isna a \<or> isna b \<longrightarrow>
            isna (get_diff_minutes (classified an r)) \<and>
            direction (classified an r) = Some ''Warning Missing'') \<and>
         (severity (classified an r) = Some ''Missing Entry'' \<longleftrightarrow> isna a \<or> isna b) \<and>
         needs_action (classified an r) =
           Some (severity (classified an r) \<in>
             {Some ''Minor'', Some ''Moderate'', Some ''Major'', Some ''Missing Entry''})"
proof -
  have present: "severity (classified an r) \<noteq> Some ''Missing Entry''"
    if "a = Num x" "b = Num y" for x y
    using classified_present(2) [of r x y an] that unfolding a_def b_def
    by (simp split: if_splits)
  have iff: "severity (classified an r) = Some ''Missing Entry'' \<longleftrightarrow> isna a \<or> isna b"
    using classified_absent(2) [of r an] present isna_cases [of a] isna_cases [of b]
    unfolding a_def b_def by auto
  show ?thesis
  proof (intro conjI allI impI)
    fix x y assume "a = Num x \<and> b = Num y"
    then have xy: "adp_break_minutes (adp r) = Num x" "amz_break_minutes (amz r) = Num y"
      by (simp_all add: a_def b_def)
    show "diff_minutes (classified an r) = Some (Num (py_round 1 (y - x)))"
      by (rule classified_present(1) [OF xy])
    show "severity (classified an r) =
        Some (if \<bar>py_round 1 (y - x)\<bar> \<le> 1 then ''Match''
              else if \<bar>py_round 1 (y - x)\<bar> \<le> 5 then ''Minor''
              else if \<bar>py_round 1 (y - x)\<bar> \<le> 15 then ''Moderate'' else ''Major'')"
      by (rule classified_present(2) [OF xy])
    show "direction (classified an r) =
        Some (if \<bar>py_round 1 (y - x)\<bar> \<le> 1 then ''Match''
              else if 0 < py_round 1 (y - x) then ''Amazon > ADP'' else ''ADP > Amazon'')"
      by (rule classified_present(3) [OF xy])
  next
    assume m: "isna a \<or> isna b"
    then show "isna (get_diff_minutes (classified an r))"
      unfolding a_def b_def by (rule classified_absent(1))
    from m show "direction (classified an r) = Some ''Warning Missing''"
      unfolding a_def b_def by (rule classified_absent(3))
  next
    show "severity (classified an r) = Some ''Missing Entry'' \<longleftrightarrow> isna a \<or> isna b"
      by (rule iff)
  next
    show "needs_action (classified an r) =
        Some (severity (classified an r) \<in>
          {Some ''Minor'', Some ''Moderate'', Some ''Major'', Some ''Missing Entry''})"
      by (rule classified_needs_action)
  qed
qed





lemma classify_rows:
  "r \<in> set (classify df) \<Longrightarrow> \<exists>an r0. r0 \<in> set df \<and> r = classified an r0"
  by (auto simp: classify_def)

lemma classified_delta_iff:
  "isna (get_diff_minutes (classified an r)) \<longleftrightarrow> severity (classified an r) = Some ''Missing Entry''"
proof -
  have "isna (get_diff_minutes (classified an r)) \<longleftrightarrow>
      isna (adp_break_minutes (adp r)) \<or> isna (amz_break_minutes (amz r))"
    using classified_absent(1) [of r an] classified_present(1) [of r _ _ an]
      isna_cases [of "adp_break_minutes (adp r)"] isna_cases [of "amz_break_minutes (amz r)"]
    by (auto simp: get_diff_minutes_def)
  then show ?thesis using classified_graded [of r an] by simp
qed

lemma classified_direction: "direction (classified an r) \<noteq> Some ''-''"
proof (cases "isna (adp_break_minutes (adp r)) \<or> isna (amz_break_minutes (amz r))")
  case True
  then show ?thesis using classified_absent(3) [of r an] by simp
next
  case False
  then obtain x y where "adp_break_minutes (adp r) = Num x" "amz_break_minutes (amz r) = Num y"
    using isna_cases [of "adp_break_minutes (adp r)"] isna_cases [of "amz_break_minutes (amz r)"]
    by auto
  then show ?thesis using classified_present(3) [of r x y an] by simp
qed

subsection \<open>The pipeline\<close>

lemma bind_Inr [simp]: "bind (Inr v) f = f v"
  by (simp add: bind_def)

lemma bind_Inl [simp]: "bind (Inl e) f = Inl e"
  by (simp add: bind_def)

lemma bind_eq_Inr: "bind m f = Inr w \<longleftrightarrow> (\<exists>v. m = Inr v \<and> f v = Inr w)"
  by (cases m) simp_all

lemma apply_rows_length: "apply_rows f df = Inr vs \<Longrightarrow> length vs = length df"
  by (induction df arbitrary: vs) (auto split: sum.splits)

text \<open>The pipeline without the store: what it computes and where it puts it.\<close>

lemma run_analysis_eq:
  "run_analysis adp_df amazon_df s =
     bind (match_employees adp_df amazon_df) (\<lambda>m.
     bind (sort_values (map step_sort_rank (classify m))) (\<lambda>sorted_df.
     bind (apply_rows build_script sorted_df) (\<lambda>scripts.
       Inr (Suc (length s),
            s @ [map step_sort_rank (classify m),
                 set_conversation_script sorted_df scripts]))))"
proof -
  obtain m where m: "match_employees adp_df amazon_df = Inr m"
    using match_employees_eq by blast
  have cd: "calculate_discrepancies (length s) (s @ [m]) = Inr (length s, s @ [classify m])"
    by (simp add: calculate_discrepancies_eq)
  have rank: "set_sort_rank c (map sort_rank_of c) = map step_sort_rank c" for c
    by (simp add: set_sort_rank_def map2_same step_sort_rank_def)
  show ?thesis
    by (simp add: run_analysis_def m alloc_def cd rank nth_append Let_def)
qed

lemma run_analysis_Inr:
  assumes "run_analysis adp_df amazon_df s = Inr (p, s')"
  obtains m scripts where "match_employees adp_df amazon_df = Inr m" and "m \<noteq> []"
    and "apply_rows build_script (sort_key sort_columns (map step_sort_rank (classify m))) = Inr scripts"
    and "p = Suc (length s)"
    and "s' = s @ [map step_sort_rank (classify m),
                   set_conversation_script (sort_key sort_columns (map step_sort_rank (classify m))) scripts]"
proof -
  from assms obtain m sorted_df scripts where
    m: "match_employees adp_df amazon_df = Inr m" and
    sv: "sort_values (map step_sort_rank (classify m)) = Inr sorted_df" and
    ap: "apply_rows build_script sorted_df = Inr scripts" and
    res: "(p, s') = (Suc (length s),
            s @ [map step_sort_rank (classify m), set_conversation_script sorted_df scripts])"
    unfolding run_analysis_eq bind_eq_Inr by auto
  from sv have "m \<noteq> []" and "sorted_df = sort_key sort_columns (map step_sort_rank (classify m))"
    by (auto simp: sort_values_def classify_def split: if_splits)
  with m ap res that show thesis by auto
qed

lemma output_rows:
  assumes "apply_rows build_script sorted_df = Inr scripts"
    and "r \<in> set (set_conversation_script sorted_df scripts)"
  shows "\<exists>r0 v. r0 \<in> set sorted_df \<and> r = r0\<lparr>conversation_script := Some v\<rparr>"
  using assms(2) unfolding set_conversation_script_def
  by (auto simp: in_set_zip) (metis nth_mem)

text \<open>
  Claim C10. In every row that the classifier produces, on any frame, the delta is
  absent exactly when the severity is Missing Entry, and the direction is never
  \<^verbatim>\<open>-\<close>; the same holds of every row that the pipeline returns.
\<close>

theorem delta_absent_iff_missing_entry:
  "(df < length s \<longrightarrow>
      (\<exists>s'. calculate_discrepancies df s = Inr (df, s') \<and>
         (\<forall>r\<in>set (s' ! df).
            (isna (get_diff_minutes r) \<longleftrightarrow> severity r = Some ''Missing Entry'') \<and>
            direction r \<noteq> Some ''-''))) \<and>
   (run_analysis adp_df amazon_df t = Inr (p, t') \<longrightarrow>
      (\<forall>r\<in>set (t' ! p).
         (isna (get_diff_minutes r) \<longleftrightarrow> severity r = Some ''Missing Entry'') \<and>
         direction r \<noteq> Some ''-''))"
proof (intro conjI impI)
  assume df: "df < length s"
  have "(isna (get_diff_minutes r) \<longleftrightarrow> severity r = Some ''Missing Entry'') \<and>
      direction r \<noteq> Some ''-''" if "r \<in> set (classify (s ! df))" for r
    using classify_rows [OF that] classified_delta_iff classified_direction by blast
  then show "\<exists>s'. calculate_discrepancies df s = Inr (df, s') \<and>
         (\<forall>r\<in>set (s' ! df).
            (isna (get_diff_minutes r) \<longleftrightarrow> severity r = Some ''Missing Entry'') \<and>
            direction r \<noteq> Some ''-'')"
    using df by (simp add: calculate_discrepancies_eq)
next
  assume run: "run_analysis adp_df amazon_df t = Inr (p, t')"
  from run obtain m scripts where
    ap: "apply_rows build_script (sort_key sort_columns (map step_sort_rank (classify m))) = Inr scripts"
    and p: "p = Suc (length t)"
    and t': "t' = t @ [map step_sort_rank (classify m),
        set_conversation_script (sort_key sort_columns (map step_sort_rank (classify m))) scripts]"
    by (rule run_analysis_Inr)
  show "\<forall>r\<in>set (t' ! p).
         (isna (get_diff_minutes r) \<longleftrightarrow> severity r = Some ''Missing Entry'') \<and>
         direction r \<noteq> Some ''-''"
  proof
    fix r assume "r \<in> set (t' ! p)"
    then have "r \<in> set (set_conversation_script
        (sort_key sort_columns (map step_sort_rank (classify m))) scripts)"
      by (simp add: p t' nth_append)
    from output_rows [OF ap this] obtain r0 v
      where "r0 \<in> set (classify m)" and r: "r = (step_sort_rank r0)\<lparr>conversation_script := Some v\<rparr>"
      by auto
    then obtain an r1 where "r0 = classified an r1" using classify_rows by blast
    then show "(isna (get_diff_minutes r) \<longleftrightarrow> severity r = Some ''Missing Entry'') \<and>
         direction r \<noteq> Some ''-''"
      using classified_delta_iff [of an r1] classified_direction [of an r1]
      by (simp add: r step_sort_rank_def get_diff_minutes_def)
  qed
qed

lemma columns_Inr:
  assumes "columns f res = Inr vs"
  obtains p s where "res = Inr (p, s)" and "map f (s ! p) = vs"
  using assms by (cases res) (auto simp: columns_def)

lemma ex_run_severity:
  "columns severity (run_analysis ex_adp ex_amz []) =
     Inr [Some ''Moderate'', Some ''Missing Entry'', Some ''Match'']"
  by code_simp

lemma ex_classify_severity:
  "map severity (classify ex_merged) = [Some ''Moderate'', Some ''Match'', Some ''Missing Entry'']"
  by code_simp

text \<open>
  On the example the classifier grades the rows Moderate, Match and Missing Entry, and
  the pipeline returns them in the order Moderate, Missing Entry, Match.
\<close>

theorem delta_absent_iff_missing_entry_witness:
  "(0 :: nat) < length [ex_merged] \<and>
   (\<exists>s'. calculate_discrepancies 0 [ex_merged] = Inr (0, s') \<and>
      map severity (s' ! 0) = [Some ''Moderate'', Some ''Match'', Some ''Missing Entry''] \<and>
      list_all (\<lambda>r. (isna (get_diff_minutes r) \<longleftrightarrow> severity r = Some ''Missing Entry'') \<and>
                    direction r \<noteq> Some ''-'') (s' ! 0)) \<and>
   (\<exists>p s''. run_analysis ex_adp ex_amz [] = Inr (p, s'') \<and>
      map severity (s'' ! p) = [Some ''Moderate'', Some ''Missing Entry'', Some ''Match''] \<and>
      list_all (\<lambda>r. (isna (get_diff_minutes r) \<longleftrightarrow> severity r = Some ''Missing Entry'') \<and>
                    direction r \<noteq> Some ''-'') (s'' ! p))"
proof -
  have h: "(0 :: nat) < length [ex_merged]" by simp
  from ex_run_severity obtain p s''
    where run: "run_analysis ex_adp ex_amz [] = Inr (p, s'')"
      and sev: "map severity (s'' ! p) = [Some ''Moderate'', Some ''Missing Entry'', Some ''Match'']"
    by (rule columns_Inr)
  have cd: "calculate_discrepancies 0 [ex_merged] = Inr (0, [classify ex_merged])"
    by (simp add: calculate_discrepancies_eq)
  from delta_absent_iff_missing_entry [of 0 "[ex_merged]" ex_adp ex_amz "[]" p s''] h run cd
  have "list_all (\<lambda>r. (isna (get_diff_minutes r) \<longleftrightarrow> severity r = Some ''Missing Entry'') \<and>
                    direction r \<noteq> Some ''-'') (classify ex_merged)"
    and "list_all (\<lambda>r. (isna (get_diff_minutes r) \<longleftrightarrow> severity r = Some ''Missing Entry'') \<and>
                    direction r \<noteq> Some ''-'') (s'' ! p)"
    by (simp_all add: list_all_iff)
  with h run sev cd ex_classify_severity show ?thesis by auto
qed

subsection \<open>Rows without minutes on either side\<close>

text \<open>
  Claim C7 says that the pipeline never raises, whatever is absent. An ADP employee
  without a break and without a partner in the Amazon frame becomes a Missing Entry row
  with both minute values absent. \<^verbatim>\<open>build_script\<close> looks at the Amazon minutes only,
  takes the branch for a break that ADP has and Amazon lacks, and formats the ADP
  minutes; when no ADP record of the run has minutes the value is \<^verbatim>\<open>None\<close>, the
  format raises \<^verbatim>\<open>TypeError\<close>, and with it \<^verbatim>\<open>run_analysis\<close>.
\<close>

theorem both_minutes_absent_raises:
  "match_employees [jane] [] = Inr [adp_only jane] \<and>
   calculate_discrepancies 0 [[adp_only jane]] = Inr (0, [[jane_row]]) \<and>
   severity jane_row = Some ''Missing Entry'' \<and>
   build_script jane_row = Inl TypeError \<and>
   run_analysis [jane] [] [] = Inl TypeError"
proof -
  have 1: "match_employees [jane] [] = Inr [adp_only jane]" by code_simp
  have 2: "classify [adp_only jane] = [jane_row]" by code_simp
  have 3: "severity jane_row = Some ''Missing Entry''" by code_simp
  have 4: "build_script jane_row = Inl TypeError" by code_simp
  have 5: "run_analysis [jane] [] [] = Inl TypeError" by code_simp
  show ?thesis using 1 2 3 4 5 by (simp add: calculate_discrepancies_eq)
qed

text \<open>
  Claim C4 promises a message for every Missing Entry record. For the record with both
  minute values absent there is none when the absent ADP value is \<^verbatim>\<open>None\<close>, and when
  it is NaN the message cites \<^verbatim>\<open>nan\<close> minutes.
\<close>

theorem script_without_minutes:
  "severity jane_row = Some ''Missing Entry'' \<and>
   amz_break_minutes (amz jane_row) = PyNone \<and>
   adp_break_minutes (adp jane_row) = PyNone \<and>
   build_script jane_row = Inl TypeError \<and>
   severity jane_nan = Some ''Missing Entry'' \<and>
   amz_break_minutes (amz jane_nan) = NaN \<and>
   adp_break_minutes (adp jane_nan) = NaN \<and>
   build_script jane_nan =
     Inr (''Hi Jane Doe, I see you have a break logged in ADP (nan min) '' @
          ''but we have no record in the Amazon Delivery App. '' @
          ''Did you log your break in the app today? Please update it before end of day.'')"
  by code_simp

text \<open>
  Where the minute values that a message cites are present, \<^verbatim>\<open>build_script\<close> fills
  the templates: the fixed message for Match, the two Missing Entry messages, and the
  discrepancy message that names the longer and the shorter source by the sign of the
  delta.
\<close>

lemma build_script_match:
  "severity r = Some ''Match'' \<Longrightarrow> build_script r = Inr ''No action needed - break times match.''"
  by (simp add: build_script_def Let_def)

lemma build_script_missing_amz:
  assumes "severity r = Some ''Missing Entry''" and "isna (amz_break_minutes (amz r))"
    and "fmt0 (adp_break_minutes (adp r)) = Inr b_txt"
  shows "build_script r = Inr (
           ''Hi '' @ employee r @ '', I see you have a break logged in ADP ('' @ b_txt @ '' min) '' @
           ''but we have no record in the Amazon Delivery App. '' @
           ''Did you log your break in the app today? Please update it before end of day.'')"
  using assms by (simp add: build_script_def Let_def)

lemma build_script_missing_adp:
  assumes "severity r = Some ''Missing Entry''" and "amz_break_minutes (amz r) = Num a"
  shows "\<exists>a_txt. fmt0 (Num a) = Inr a_txt \<and> build_script r = Inr (
           ''Hi '' @ employee r @ '', we have your break in the Amazon app ('' @ a_txt @ '' min) '' @
           ''but there is no matching entry in ADP. '' @
           ''Can you log your break in ADP before 5 PM today?'')"
  using assms by (simp add: build_script_def Let_def)

lemma build_script_discrepancy:
  assumes "severity r = Some sev" and "sev \<in> {''Minor'', ''Moderate'', ''Major''}"
    and "amz_break_minutes (amz r) = Num a" and "adp_break_minutes (adp r) = Num b"
    and "diff_minutes r = Some (Num d)"
  shows "\<exists>d_txt a_txt b_txt.
           fmt0 (Num \<bar>d\<bar>) = Inr d_txt \<and> fmt0 (Num a) = Inr a_txt \<and> fmt0 (Num b) = Inr b_txt \<and>
           build_script r = Inr (
             ''Hi '' @ employee r @ '', we noticed a discrepancy in your break times today - '' @
             ''your '' @ (if 0 < d then ''Amazon app'' else ''ADP'') @ '' shows '' @ d_txt @
             '' more minutes than your '' @ (if 0 < d then ''ADP'' else ''Amazon app'') @ ''. '' @
             ''Amazon recorded '' @ a_txt @ '' min and ADP recorded '' @ b_txt @ '' min. '' @
             ''Please review both entries and correct whichever is inaccurate by end of day.'')"
  using assms by (auto simp: build_script_def Let_def get_diff_minutes_def)

lemma apply_rows_Inr_iff:
  "(\<exists>vs. apply_rows f df = Inr vs) \<longleftrightarrow> (\<forall>r\<in>set df. \<exists>v. f r = Inr v)"
  by (induction df) (auto split: sum.splits)

lemma fmt0_Inr_iff: "(\<exists>v. fmt0 x = Inr v) \<longleftrightarrow> x \<noteq> PyNone"
  by (cases x) simp_all

lemma build_script_sort_rank [simp]: "build_script (step_sort_rank r) = build_script r"
  by (simp add: build_script_def step_sort_rank_def employee_def get_diff_minutes_def)

lemma build_script_classified:
  "(\<exists>v. build_script (classified an r) = Inr v) \<longleftrightarrow>
     \<not> (isna (amz_break_minutes (amz r)) \<and> adp_break_minutes (adp r) = PyNone)"
proof (cases "isna (adp_break_minutes (adp r)) \<or> isna (amz_break_minutes (amz r))")
  case True
  then have sev: "severity (classified an r) = Some ''Missing Entry''"
    by (rule classified_absent(2))
  show ?thesis
  proof (cases "isna (amz_break_minutes (amz r))")
    case True
    then show ?thesis
      using fmt0_Inr_iff [of "adp_break_minutes (adp r)"]
      by (auto simp: build_script_def Let_def sev classified_keeps bind_def split: sum.splits)
  next
    case False
    then obtain a where "amz_break_minutes (amz r) = Num a"
      using isna_cases by blast
    then show ?thesis
      by (simp add: build_script_def Let_def sev classified_keeps)
  qed
next
  case False
  then obtain x y where xy: "adp_break_minutes (adp r) = Num x" "amz_break_minutes (amz r) = Num y"
    using isna_cases [of "adp_break_minutes (adp r)"] isna_cases [of "amz_break_minutes (amz r)"]
    by auto
  show ?thesis
    using classified_present [OF xy, of an] xy
    by (simp add: build_script_def Let_def classified_keeps get_diff_minutes_def)
qed

text \<open>Two frames without records: the merged frame has no column to sort by.\<close>

lemma run_analysis_empty: "run_analysis [] [] s = Inl KeyError"
  by (simp add: run_analysis_eq match_employees_eq matcher_spec_def data_frame_def
      classify_def sort_values_def)

text \<open>
  The pipeline returns unless the merged frame is empty or some row lacks the Amazon
  minutes while its ADP minutes are \<^verbatim>\<open>None\<close>.
\<close>

lemma run_analysis_returns_iff:
  "(\<exists>res. run_analysis adp_df amazon_df s = Inr res) \<longleftrightarrow>
     (\<exists>m. match_employees adp_df amazon_df = Inr m \<and> m \<noteq> [] \<and>
        (\<forall>r\<in>set m. \<not> (isna (amz_break_minutes (amz r)) \<and> adp_break_minutes (adp r) = PyNone)))"
proof -
  obtain m where m: "match_employees adp_df amazon_df = Inr m"
    using match_employees_eq by blast
  let ?ranked = "map step_sort_rank (classify m)"
  have sv: "sort_values ?ranked = (if m = [] then Inl KeyError else Inr (sort_key sort_columns ?ranked))"
    by (auto simp: sort_values_def classify_def step_sort_rank_def)
  have scripts: "(\<exists>vs. apply_rows build_script (sort_key sort_columns ?ranked) = Inr vs) \<longleftrightarrow>
      (\<forall>r\<in>set m. \<not> (isna (amz_break_minutes (amz r)) \<and> adp_break_minutes (adp r) = PyNone))"
    unfolding apply_rows_Inr_iff
    by (simp add: classify_def build_script_classified)
  have run: "run_analysis adp_df amazon_df s =
      (if m = [] then Inl KeyError
       else bind (apply_rows build_script (sort_key sort_columns ?ranked)) (\<lambda>scripts.
         Inr (Suc (length s),
              s @ [?ranked, set_conversation_script (sort_key sort_columns ?ranked) scripts])))"
    by (simp add: run_analysis_eq m sv)
  show ?thesis
    unfolding run m using scripts by (auto simp: bind_def split: sum.splits)
qed

subsection \<open>In-place assignment\<close>

lemma matched_no_script:
  assumes "match_employees adp_df amazon_df = Inr m" and "r \<in> set m"
  shows "conversation_script r = None"
  using assms unfolding match_employees_eq
  by (auto simp: data_frame_def Let_def matcher_spec_def spec_row_def new_row_def
      split: option.splits)

lemma classify_keeps:
  "map adp (classify df) = map adp df" "map amz (classify df) = map amz df"
  "map match_score (classify df) = map match_score df"
  by (simp_all add: classify_def classified_keeps)

lemma classified_assigned:
  "diff_minutes (classified an r) \<noteq> None" "severity (classified an r) \<noteq> None"
  "direction (classified an r) \<noteq> None" "needs_action (classified an r) \<noteq> None"
  using cd_severity_step_diff [of an r]
  by (auto simp: classified_def step_diff_def step_severity_def step_direction_def
      step_needs_action_def)

text \<open>
  Claim C5, as amended. The classifier assigns its four columns in the frame it is
  given and returns that same frame: no other frame changes, and in the frame itself the
  columns of the matcher (both sides' fields and the score), the number of rows and
  their order stay as they were. In the pipeline the frame that the matcher returned
  receives the classifier's columns and the sort rank in place; sorting returns a new
  frame, which alone receives the scripts.
\<close>

theorem classifier_assigns_in_place:
  "(df < length s \<longrightarrow>
      (\<exists>s'. calculate_discrepancies df s = Inr (df, s') \<and> length s' = length s \<and>
         (\<forall>q. q \<noteq> df \<longrightarrow> s' ! q = s ! q) \<and>
         map adp (s' ! df) = map adp (s ! df) \<and>
         map amz (s' ! df) = map amz (s ! df) \<and>
         map match_score (s' ! df) = map match_score (s ! df) \<and>
         list_all (\<lambda>r. diff_minutes r \<noteq> None \<and> severity r \<noteq> None \<and>
                       direction r \<noteq> None \<and> needs_action r \<noteq> None) (s' ! df))) \<and>
   (run_analysis adp_df amazon_df t = Inr (p, t') \<longrightarrow>
      (\<exists>m. match_employees adp_df amazon_df = Inr m \<and>
         p = Suc (length t) \<and> length t' = length t + 2 \<and> take (length t) t' = t \<and>
         map adp (t' ! length t) = map adp m \<and>
         map amz (t' ! length t) = map amz m \<and>
         map match_score (t' ! length t) = map match_score m \<and>
         list_all (\<lambda>r. severity r \<noteq> None \<and> sort_rank r \<noteq> None \<and>
                       conversation_script r = None) (t' ! length t)))"
proof (intro conjI impI)
  assume df: "df < length s"
  let ?s' = "s[df := classify (s ! df)]"
  have "list_all (\<lambda>r. diff_minutes r \<noteq> None \<and> severity r \<noteq> None \<and>
                       direction r \<noteq> None \<and> needs_action r \<noteq> None) (classify (s ! df))"
    using classified_assigned by (simp add: classify_def list_all_iff)
  then show "\<exists>s'. calculate_discrepancies df s = Inr (df, s') \<and> length s' = length s \<and>
         (\<forall>q. q \<noteq> df \<longrightarrow> s' ! q = s ! q) \<and>
         map adp (s' ! df) = map adp (s ! df) \<and>
         map amz (s' ! df) = map amz (s ! df) \<and>
         map match_score (s' ! df) = map match_score (s ! df) \<and>
         list_all (\<lambda>r. diff_minutes r \<noteq> None \<and> severity r \<noteq> None \<and>
                       direction r \<noteq> None \<and> needs_action r \<noteq> None) (s' ! df)"
    using df by (intro exI [of _ ?s']) (simp add: calculate_discrepancies_eq classify_keeps)
next
  assume run: "run_analysis adp_df amazon_df t = Inr (p, t')"
  from run obtain m scripts where
    m: "match_employees adp_df amazon_df = Inr m"
    and p: "p = Suc (length t)"
    and t': "t' = t @ [map step_sort_rank (classify m),
        set_conversation_script (sort_key sort_columns (map step_sort_rank (classify m))) scripts]"
    by (rule run_analysis_Inr)
  have none: "conversation_script (step_sort_rank (classified an r)) = None" if "r \<in> set m" for an r
    using matched_no_script [OF m that] by (simp add: step_sort_rank_def classified_keeps)
  have "list_all (\<lambda>r. severity r \<noteq> None \<and> sort_rank r \<noteq> None \<and> conversation_script r = None)
      (map step_sort_rank (classify m))"
    using none classified_assigned(2)
    by (auto simp: list_all_iff classify_def step_sort_rank_def)
  moreover have "map adp (map step_sort_rank (classify m)) = map adp m"
    "map amz (map step_sort_rank (classify m)) = map amz m"
    "map match_score (map step_sort_rank (classify m)) = map match_score m"
    using classify_keeps [of m] by (simp_all add: step_sort_rank_def o_def)
  ultimately show "\<exists>m. match_employees adp_df amazon_df = Inr m \<and>
         p = Suc (length t) \<and> length t' = length t + 2 \<and> take (length t) t' = t \<and>
         map adp (t' ! length t) = map adp m \<and>
         map amz (t' ! length t) = map amz m \<and>
         map match_score (t' ! length t) = map match_score m \<and>
         list_all (\<lambda>r. severity r \<noteq> None \<and> sort_rank r \<noteq> None \<and>
                       conversation_script r = None) (t' ! length t)"
    using m p by (intro exI [of _ m]) (simp add: t')
qed

text \<open>
  Claim C5 as it is written has the matcher's output unchanged after the classifier
  has run. On the example the frame that the matcher returned is another one
  afterwards.
\<close>

theorem matcher_frame_is_changed_counterexample:
  "match_employees ex_adp ex_amz = Inr ex_merged \<and>
   calculate_discrepancies 0 [ex_merged] = Inr (0, [classify ex_merged]) \<and>
   classify ex_merged \<noteq> ex_merged"
proof -
  have "classify ex_merged \<noteq> ex_merged" by code_simp
  then show ?thesis by (simp add: ex_match_employees calculate_discrepancies_eq)
qed

lemma ex_run_ranks:
  "columns sort_rank (run_analysis ex_adp ex_amz []) = Inr [Some 1, Some 3, Some 4]"
  by code_simp

theorem classifier_assigns_in_place_witness:
  "(0 :: nat) < length [ex_merged] \<and>
   (\<exists>s'. calculate_discrepancies 0 [ex_merged] = Inr (0, s') \<and> length s' = 1 \<and>
      map match_score (s' ! 0) = [67 / 100, 67 / 100, 0] \<and>
      list_all (\<lambda>r. diff_minutes r \<noteq> None \<and> severity r \<noteq> None \<and>
                    direction r \<noteq> None \<and> needs_action r \<noteq> None) (s' ! 0)) \<and>
   (\<exists>p t'. run_analysis ex_adp ex_amz [] = Inr (p, t') \<and> p = 1 \<and> length t' = 2 \<and>
      map match_score (t' ! 0) = [67 / 100, 67 / 100, 0] \<and>
      list_all (\<lambda>r. severity r \<noteq> None \<and> sort_rank r \<noteq> None \<and>
                    conversation_script r = None) (t' ! 0))"
proof -
  have h: "(0 :: nat) < length [ex_merged]" by simp
  have sc: "map match_score ex_merged = [67 / 100, 67 / 100, 0]"
    by (simp add: ex_merged_def new_row_def)
  from ex_run_ranks obtain p t' where run: "run_analysis ex_adp ex_amz [] = Inr (p, t')"
    by (rule columns_Inr)
  from classifier_assigns_in_place [of 0 "[ex_merged]" ex_adp ex_amz "[]" p t'] h run
  show ?thesis
    by (auto simp: ex_match_employees sc)
qed

subsection \<open>The order of the output\<close>

lemma map_map2_left:
  "length ys = length xs \<Longrightarrow> (\<And>x y. x \<in> set xs \<Longrightarrow> f (g x y) = h x) \<Longrightarrow>
     map f (map2 g xs ys) = map h xs"
  by (induction xs ys rule: list_induct2') auto

lemma sort_rank_of_cong: "severity r = severity r' \<Longrightarrow> sort_rank_of r = sort_rank_of r'"
  by (simp add: sort_rank_of_def)

lemma sort_columns_ranked:
  assumes "sort_rank r = Some (sort_rank_of r)"
  shows "sort_columns r =
     (sort_rank_of r, case adp_name (adp r) of None \<Rightarrow> (1, []) | Some name \<Rightarrow> (0, name))"
  using assms by (simp add: sort_columns_def)

lemma sort_columns_le:
  assumes "sort_rank r = Some (sort_rank_of r)" and "sort_rank r' = Some (sort_rank_of r')"
    and "sort_columns r \<le> sort_columns r'"
  shows "sort_rank_of r \<le> sort_rank_of r' \<and>
         (sort_rank_of r = sort_rank_of r' \<longrightarrow> name_le (adp_name (adp r)) (adp_name (adp r')))"
  using assms(3) unfolding sort_columns_ranked [OF assms(1)] sort_columns_ranked [OF assms(2)]
  by (cases "adp_name (adp r)"; cases "adp_name (adp r')") (auto simp: less_eq_prod_def)

lemma sort_columns_eq_iff:
  assumes "sort_rank r = Some (sort_rank_of r)"
  shows "sort_columns r = (rank, case name of None \<Rightarrow> (1, []) | Some n \<Rightarrow> (0, n)) \<longleftrightarrow>
         sort_rank_of r = rank \<and> adp_name (adp r) = name"
  unfolding sort_columns_ranked [OF assms]
  by (cases "adp_name (adp r)"; cases name) auto

lemma sort_rank_of_values:
  "sort_rank_of r =
     (if severity r = Some ''Major'' then 0 else if severity r = Some ''Moderate'' then 1
      else if severity r = Some ''Minor'' then 2 else if severity r = Some ''Missing Entry'' then 3
      else if severity r = Some ''Match'' then 4 else 5)"
  by (cases "severity r") (simp_all add: sort_rank_of_def sev_order_def)

text \<open>
  Claim C1, as amended. Whenever the pipeline returns, its output is the classified
  frame stable-sorted by severity rank and then by source-A name: the ranks are
  Major 0, Moderate 1, Minor 2, Missing Entry 3, Match 4 and 5 for anything else; of
  two rows the earlier has the smaller rank or, at equal rank, the source-A name that
  is not greater, a row without source-A name counting as greater than every row with
  one; and the rows of one rank and one source-A name, also the rows of one rank that
  have no source-A name, are in the order the matcher gave them. The source-B name
  takes no part in the order.
\<close>

theorem output_sorted_by_rank_and_adp_name:
  assumes "run_analysis adp_df amazon_df s = Inr (p, s')"
  shows "(\<forall>i j. i < j \<and> j < length (s' ! p) \<longrightarrow>
            sort_rank_of (s' ! p ! i) \<le> sort_rank_of (s' ! p ! j) \<and>
            (sort_rank_of (s' ! p ! i) = sort_rank_of (s' ! p ! j) \<longrightarrow>
               name_le (adp_name (adp (s' ! p ! i))) (adp_name (adp (s' ! p ! j))))) \<and>
         (\<forall>rank name.
            filter (\<lambda>r. sort_rank_of r = rank \<and> adp_name (adp r) = name)
              (map unscripted (s' ! p)) =
            filter (\<lambda>r. sort_rank_of r = rank \<and> adp_name (adp r) = name) (s' ! length s)) \<and>
         (\<forall>r. sort_rank_of r =
            (if severity r = Some ''Major'' then 0 else if severity r = Some ''Moderate'' then 1
             else if severity r = Some ''Minor'' then 2
             else if severity r = Some ''Missing Entry'' then 3
             else if severity r = Some ''Match'' then 4 else 5))"
proof -
  from assms obtain m scripts where
    m: "match_employees adp_df amazon_df = Inr m"
    and ap: "apply_rows build_script (sort_key sort_columns (map step_sort_rank (classify m))) = Inr scripts"
    and p: "p = Suc (length s)"
    and s': "s' = s @ [map step_sort_rank (classify m),
        set_conversation_script (sort_key sort_columns (map step_sort_rank (classify m))) scripts]"
    by (rule run_analysis_Inr)
  define ranked where "ranked = map step_sort_rank (classify m)"
  define srt where "srt = sort_key sort_columns ranked"
  define out where "out = set_conversation_script srt scripts"
  have out: "s' ! p = out" and rk: "s' ! length s = ranked"
    by (simp_all add: p s' out_def srt_def ranked_def nth_append)
  have len: "length scripts = length srt"
    using apply_rows_length [OF ap] by (simp add: srt_def ranked_def)
  have ranked_rank: "sort_rank r = Some (sort_rank_of r)" if "r \<in> set ranked" for r
    using that by (auto simp: ranked_def step_sort_rank_def sort_rank_of_def)
  have ranked_script: "conversation_script r = None" if "r \<in> set ranked" for r
  proof -
    from that obtain an r0 where "r0 \<in> set m" and "r = step_sort_rank (classified an r0)"
      by (auto simp: ranked_def classify_def)
    then show ?thesis
      using matched_no_script [OF m] by (simp add: step_sort_rank_def classified_keeps)
  qed
  have set_srt: "set srt = set ranked" by (simp add: srt_def)
  have keys: "map sort_columns out = map sort_columns srt"
    unfolding out_def set_conversation_script_def
    by (rule map_map2_left [OF len]) (simp add: sort_columns_def)
  have uns: "map unscripted out = srt"
  proof -
    have "map unscripted out = map (\<lambda>r. r) srt"
      unfolding out_def set_conversation_script_def
      by (rule map_map2_left [OF len])
        (use ranked_script set_srt in \<open>simp add: unscripted_def\<close>)
    then show ?thesis by simp
  qed
  have out_rank: "sort_rank r = Some (sort_rank_of r)" if "r \<in> set out" for r
  proof -
    from that obtain r0 v where "r0 \<in> set srt" and "r = r0\<lparr>conversation_script := Some v\<rparr>"
      unfolding out_def using output_rows [OF ap [folded ranked_def srt_def]] by blast
    then show ?thesis using ranked_rank [of r0] set_srt by (simp add: sort_rank_of_def)
  qed
  have sorted: "sorted (map sort_columns out)"
    unfolding keys srt_def by (rule sorted_sort_key)
  have order: "sort_rank_of (out ! i) \<le> sort_rank_of (out ! j) \<and>
      (sort_rank_of (out ! i) = sort_rank_of (out ! j) \<longrightarrow>
         name_le (adp_name (adp (out ! i))) (adp_name (adp (out ! j))))"
    if "i < j \<and> j < length out" for i j
  proof -
    have "map sort_columns out ! i \<le> map sort_columns out ! j"
      by (rule sorted_nth_mono [OF sorted]) (use that in simp_all)
    then have "sort_columns (out ! i) \<le> sort_columns (out ! j)"
      using that by simp
    moreover have "out ! i \<in> set out" "out ! j \<in> set out" using that by simp_all
    ultimately show ?thesis using out_rank sort_columns_le by blast
  qed
  have stable: "filter (\<lambda>r. sort_rank_of r = rank \<and> adp_name (adp r) = name) (map unscripted out) =
      filter (\<lambda>r. sort_rank_of r = rank \<and> adp_name (adp r) = name) ranked" for rank name
  proof -
    let ?k = "(rank, case name of None \<Rightarrow> (1 :: nat, []) | Some n \<Rightarrow> (0, n))"
    have "filter (\<lambda>r. sort_rank_of r = rank \<and> adp_name (adp r) = name) srt =
        filter (\<lambda>r. sort_columns r = ?k) srt"
      by (rule filter_cong [OF refl])
        (use ranked_rank set_srt sort_columns_eq_iff in \<open>simp\<close>)
    also have "\<dots> = filter (\<lambda>r. sort_columns r = ?k) ranked"
      unfolding srt_def by (rule sort_key_stable)
    also have "\<dots> = filter (\<lambda>r. sort_rank_of r = rank \<and> adp_name (adp r) = name) ranked"
      by (rule filter_cong [OF refl])
        (use ranked_rank sort_columns_eq_iff in \<open>simp\<close>)
    finally show ?thesis by (simp add: uns)
  qed
  show ?thesis
    unfolding out rk using order stable sort_rank_of_values by blast
qed

lemma srt_run:
  "columns (\<lambda>r. (adp_name (adp r), amz_name (amz r), severity r))
     (run_analysis srt_adp srt_amz []) =
   Inr [(Some ''Al Green'', None, Some ''Missing Entry''),
        (Some ''Bob Stone'', None, Some ''Missing Entry''),
        (None, Some ''Zed Young'', Some ''Missing Entry''),
        (None, Some ''Amy Adams'', Some ''Missing Entry'')]"
  by code_simp

text \<open>
  Four unmatched employees, all Missing Entry: the two ADP names come out in
  alphabetical order, the two Amazon records follow in the order they came in.
\<close>

theorem output_sorted_by_rank_and_adp_name_witness:
  "\<exists>p s'. run_analysis srt_adp srt_amz [] = Inr (p, s') \<and>
     map (\<lambda>r. (adp_name (adp r), amz_name (amz r), severity r)) (s' ! p) =
       [(Some ''Al Green'', None, Some ''Missing Entry''),
        (Some ''Bob Stone'', None, Some ''Missing Entry''),
        (None, Some ''Zed Young'', Some ''Missing Entry''),
        (None, Some ''Amy Adams'', Some ''Missing Entry'')] \<and>
     sort_rank_of (s' ! p ! 0) \<le> sort_rank_of (s' ! p ! 1) \<and>
     name_le (adp_name (adp (s' ! p ! 0))) (adp_name (adp (s' ! p ! 1))) \<and>
     name_le (adp_name (adp (s' ! p ! 1))) (adp_name (adp (s' ! p ! 2)))"
proof -
  from srt_run obtain p s' where run: "run_analysis srt_adp srt_amz [] = Inr (p, s')"
    and cols: "map (\<lambda>r. (adp_name (adp r), amz_name (amz r), severity r)) (s' ! p) =
       [(Some ''Al Green'', None, Some ''Missing Entry''),
        (Some ''Bob Stone'', None, Some ''Missing Entry''),
        (None, Some ''Zed Young'', Some ''Missing Entry''),
        (None, Some ''Amy Adams'', Some ''Missing Entry'')]"
    by (rule columns_Inr)
  from cols obtain r0 r1 r2 r3 where rows: "s' ! p = [r0, r1, r2, r3]"
    and sev: "severity r0 = Some ''Missing Entry''" "severity r1 = Some ''Missing Entry''"
    and names: "adp_name (adp r1) = Some ''Bob Stone''" "adp_name (adp r2) = None"
    by (auto simp: map_eq_Cons_conv)
  have "sort_rank_of r0 = sort_rank_of r1"
    using sev by (simp add: sort_rank_of_def)
  moreover from output_sorted_by_rank_and_adp_name [OF run, THEN conjunct1, rule_format, of 0 1]
  have "sort_rank_of (s' ! p ! 0) \<le> sort_rank_of (s' ! p ! 1) \<and>
        (sort_rank_of (s' ! p ! 0) = sort_rank_of (s' ! p ! 1) \<longrightarrow>
           name_le (adp_name (adp (s' ! p ! 0))) (adp_name (adp (s' ! p ! 1))))"
    by (simp add: rows)
  ultimately have c: "sort_rank_of (s' ! p ! 0) \<le> sort_rank_of (s' ! p ! 1) \<and>
      name_le (adp_name (adp (s' ! p ! 0))) (adp_name (adp (s' ! p ! 1)))"
    by (simp add: rows)
  have d: "name_le (adp_name (adp (s' ! p ! 1))) (adp_name (adp (s' ! p ! 2)))"
    by (simp add: rows names)
  show ?thesis
    by (intro exI [of _ p] exI [of _ s'] conjI)
      (rule run cols c [THEN conjunct1] c [THEN conjunct2] d)+
qed

text \<open>
  Claim C1 as it is written orders a row without source-A name by its source-B name,
  so that the names shown are non-decreasing within a severity. On the same input all
  four rows are Missing Entry and \<^verbatim>\<open>Zed Young\<close> is followed by \<^verbatim>\<open>Amy Adams\<close>.
\<close>

theorem display_names_out_of_order_counterexample:
  "columns severity (run_analysis srt_adp srt_amz []) =
     Inr [Some ''Missing Entry'', Some ''Missing Entry'', Some ''Missing Entry'',
          Some ''Missing Entry''] \<and>
   columns employee (run_analysis srt_adp srt_amz []) =
     Inr [''Al Green'', ''Bob Stone'', ''Zed Young'', ''Amy Adams''] \<and>
   ''Amy Adams'' < ''Zed Young''"
  by code_simp

end
